theory Spec2Isabelle
  imports Complex_Main "HOL-Library.Word"
begin

section \<open>The GCS_MAVLink outbound link layer (libraries/GCS_MAVLink/GCS.h)\<close>

text \<open>
  A shallow embedding of the transmit side of \<^verbatim>\<open>GCS.h\<close>: the per-channel
  class \<^verbatim>\<open>GCS_MAVLINK\<close>, the payload-space macros and the channel accessor
  of \<^verbatim>\<open>GCS\<close>. Machine integers keep their width: \<^verbatim>\<open>uint8_t\<close>,
  \<^verbatim>\<open>uint16_t\<close> and \<^verbatim>\<open>uint32_t\<close> are words, so a subtraction of two
  \<^verbatim>\<open>millis16()\<close> timestamps wraps as it does on the target.

  A C++ member whose name starts with an underscore (\<^verbatim>\<open>_locked\<close>,
  \<^verbatim>\<open>_port\<close>, \<^verbatim>\<open>_num_gcs\<close>, \<^verbatim>\<open>_chan\<close>) is written with the prefix
  \<open>m\<close> here, since an Isabelle name cannot start with an underscore.
\<close>

type_synonym uint8_t = "8 word"
type_synonym uint16_t = "16 word"
type_synonym uint32_t = "32 word"

text \<open>
  \<^verbatim>\<open>enum ap_message\<close> is declared in \<^verbatim>\<open>ap_message.h\<close>; the header only
  relies on its stable ordinals (a \<^verbatim>\<open>Bitmask<MSG_LAST>\<close> is indexed by them), so
  a message identifier is its ordinal and a bitmask over identifiers is the set of the
  ordinals whose bit is set.
\<close>

type_synonym ap_message = nat

subsection \<open>Data of one channel\<close>

text \<open>\<^verbatim>\<open>struct deferred_message_t\<close>: the specially handled messages (heartbeat,
  next parameter, high latency), kept apart from the stream-rated buckets.\<close>

record deferred_message_t =
  dm_id :: ap_message
  dm_interval_ms :: uint16_t
  dm_last_sent_ms :: uint16_t

text \<open>\<^verbatim>\<open>struct deferred_message_bucket_t\<close>.\<close>

record deferred_message_bucket_t =
  ap_message_ids :: "ap_message set"
  interval_ms :: uint16_t
  last_sent_ms :: uint16_t

text \<open>What a channel has handed to the transport: one entry per call of a MAVLink send
  routine (\<^verbatim>\<open>mavlink_msg_mission_ack_send\<close>,
  \<^verbatim>\<open>_mav_finalize_message_chan_send\<close>, or the serializer of a scheduled
  \<^verbatim>\<open>ap_message\<close>). The wire encoding is not part of this header.\<close>

datatype tx_frame =
  Mission_Ack_Frame uint8_t uint8_t nat nat
  | Finalized_Frame uint32_t "uint8_t list"
  | Scheduled_Frame ap_message

text \<open>The members of \<^verbatim>\<open>class GCS_MAVLINK\<close> that the transmit path reads or
  writes. \<open>m_port_txspace\<close> is what \<^verbatim>\<open>_port->txspace()\<close> reports at the moment
  of the call (the UART driver is behind \<^verbatim>\<open>AP_HAL\<close>); \<open>tx_log\<close> is the sequence
  of frames handed to the transport so far.\<close>

record GCS_MAVLINK =
  m_locked :: bool
  m_port_txspace :: uint32_t
  out_of_space_to_send_count :: uint16_t
  deferred_message :: "deferred_message_t list"
  deferred_message_bucket :: "deferred_message_bucket_t list"
  sending_bucket_id :: uint8_t
  bucket_message_ids_to_send :: "ap_message set"
  pushed_ap_message_ids :: "ap_message set"
  tx_log :: "tx_frame list"

subsection \<open>Transmit space, locking and the out-of-space counter\<close>

text \<open>\<^verbatim>\<open>uint16_t txspace() const\<close>: zero when the channel is locked, otherwise
  \<^verbatim>\<open>MIN(_port->txspace(), 8192U)\<close>, computed in 32 bits and returned as
  \<^verbatim>\<open>uint16_t\<close>.\<close>

definition txspace :: "GCS_MAVLINK \<Rightarrow> uint16_t" where
  "txspace link =
     (if m_locked link then 0
      else ucast (min (m_port_txspace link) (8192 :: uint32_t)))"

text \<open>\<^verbatim>\<open>void lock(bool _lock)\<close> and \<^verbatim>\<open>bool locked() const\<close>.\<close>

definition lock :: "bool \<Rightarrow> GCS_MAVLINK \<Rightarrow> GCS_MAVLINK" where
  "lock l link = link\<lparr>m_locked := l\<rparr>"

definition locked :: "GCS_MAVLINK \<Rightarrow> bool" where
  "locked link = m_locked link"

text \<open>\<^verbatim>\<open>void out_of_space_to_send() { out_of_space_to_send_count++; }\<close> on a
  \<^verbatim>\<open>uint16_t\<close> counter.\<close>

definition out_of_space_to_send :: "GCS_MAVLINK \<Rightarrow> GCS_MAVLINK" where
  "out_of_space_to_send link =
     link\<lparr>out_of_space_to_send_count := out_of_space_to_send_count link + 1\<rparr>"

text \<open>\<^verbatim>\<open>bool is_streaming() const\<close>, with
  \<^verbatim>\<open>static const uint8_t no_bucket_to_send = -1\<close>.\<close>

definition no_bucket_to_send :: uint8_t where
  "no_bucket_to_send = - 1"

definition is_streaming :: "GCS_MAVLINK \<Rightarrow> bool" where
  "is_streaming link = (sending_bucket_id link \<noteq> no_bucket_to_send)"

subsection \<open>The payload-space macros\<close>

text \<open>Modelled from the spec: \<^verbatim>\<open>comm_get_txspace(chan)\<close> is a free function
  that the macro \<^verbatim>\<open>HAVE_PAYLOAD_SPACE\<close> calls and the header does not define.
  It is the spec's \<open>available_tx_bytes(channel)\<close>, "the channel's currently available
  transmit byte budget": on the channel \<open>link\<close>, the channel's own
  \<^verbatim>\<open>txspace()\<close>.\<close>

definition comm_get_txspace :: "GCS_MAVLINK \<Rightarrow> uint16_t" where
  "comm_get_txspace link = txspace link"

text \<open>Modelled from the spec: \<^verbatim>\<open>void gcs_out_of_space_to_send(mavlink_channel_t
  chan)\<close> is declared in the header and defined elsewhere. The spec's admission gate
  "increments a per-channel starved counter": on the channel \<open>link\<close>, the channel's own
  \<^verbatim>\<open>out_of_space_to_send()\<close>.\<close>

definition gcs_out_of_space_to_send :: "GCS_MAVLINK \<Rightarrow> GCS_MAVLINK" where
  "gcs_out_of_space_to_send link = out_of_space_to_send link"

text \<open>\<^verbatim>\<open>PAYLOAD_SIZE(chan, id)\<close> is
  \<^verbatim>\<open>unsigned(GCS_MAVLINK::packet_overhead_chan(chan)+MAVLINK_MSG_ID_id_LEN)\<close>.
  \<^verbatim>\<open>packet_overhead_chan\<close> returns a \<^verbatim>\<open>uint8_t\<close> and is defined outside
  the header, so its value for the channel is the parameter \<open>overhead\<close>; the length
  constants come from the generated MAVLink headers and are the parameter \<open>len\<close>, at
  the width \<^verbatim>\<open>check_payload_size\<close> takes (\<^verbatim>\<open>uint16_t\<close>). The sum is
  formed after integer promotion, here in 32 bits.\<close>

definition PAYLOAD_SIZE :: "uint8_t \<Rightarrow> uint16_t \<Rightarrow> uint32_t" where
  "PAYLOAD_SIZE overhead len = ucast overhead + ucast len"

text \<open>\<^verbatim>\<open>HAVE_PAYLOAD_SPACE(_chan, id)\<close>:
  \<^verbatim>\<open>(comm_get_txspace(_chan) >= PAYLOAD_SIZE(_chan, id) ? true :
  (gcs_out_of_space_to_send(_chan), false))\<close>. The comparison is unsigned, in 32 bits.
  The result is the truth value and the channel after the comma operator's side
  effect.\<close>

definition HAVE_PAYLOAD_SPACE ::
    "uint8_t \<Rightarrow> GCS_MAVLINK \<Rightarrow> uint16_t \<Rightarrow> bool \<times> GCS_MAVLINK" where
  "HAVE_PAYLOAD_SPACE overhead link len =
     (if PAYLOAD_SIZE overhead len \<le> ucast (comm_get_txspace link) then (True, link)
      else (False, gcs_out_of_space_to_send link))"

text \<open>Modelled from the spec: \<^verbatim>\<open>bool check_payload_size(uint16_t max_payload_len)\<close>
  is declared in the header and defined elsewhere. Section 4.4 of the spec gives its
  contract (true iff the available bytes cover payload plus overhead; the starved counter
  is incremented otherwise), which is that of \<^verbatim>\<open>HAVE_PAYLOAD_SPACE\<close>.\<close>

definition check_payload_size ::
    "uint8_t \<Rightarrow> GCS_MAVLINK \<Rightarrow> uint16_t \<Rightarrow> bool \<times> GCS_MAVLINK" where
  "check_payload_size overhead link max_payload_len =
     (if ucast (txspace link) < PAYLOAD_SIZE overhead max_payload_len
      then (False, gcs_out_of_space_to_send link)
      else (True, link))"

text \<open>\<^verbatim>\<open>void send_mission_ack(msg, mission_type, result) const\<close>:
  \<^verbatim>\<open>CHECK_PAYLOAD_SIZE2_VOID(chan, MISSION_ACK)\<close> returns at once when the
  message does not fit; otherwise the acknowledgement is sent.\<close>

definition send_mission_ack ::
    "uint8_t \<Rightarrow> uint16_t \<Rightarrow> uint8_t \<Rightarrow> uint8_t \<Rightarrow> nat \<Rightarrow> nat \<Rightarrow> GCS_MAVLINK \<Rightarrow> GCS_MAVLINK" where
  "send_mission_ack overhead MISSION_ACK_LEN sysid compid mission_type result link =
     (case HAVE_PAYLOAD_SPACE overhead link MISSION_ACK_LEN of
        (False, link') \<Rightarrow> link'
      | (True, link') \<Rightarrow>
          link'\<lparr>tx_log := tx_log link' @ [Mission_Ack_Frame sysid compid result mission_type]\<rparr>)"

text \<open>\<^verbatim>\<open>mavlink_msg_entry_t\<close> (from the MAVLink library): the fields that
  \<^verbatim>\<open>send_message(pkt, entry)\<close> reads.\<close>

record mavlink_msg_entry_t =
  msgid :: uint32_t
  min_msg_len :: uint16_t
  max_msg_len :: uint16_t
  crc_extra :: uint8_t

text \<open>\<^verbatim>\<open>void send_message(const char *pkt, const mavlink_msg_entry_t *entry)\<close>.\<close>

definition send_message ::
    "uint8_t \<Rightarrow> uint8_t list \<Rightarrow> mavlink_msg_entry_t \<Rightarrow> GCS_MAVLINK \<Rightarrow> GCS_MAVLINK" where
  "send_message overhead pkt entry link =
     (case check_payload_size overhead link (max_msg_len entry) of
        (False, link') \<Rightarrow> link'
      | (True, link') \<Rightarrow>
          link'\<lparr>tx_log := tx_log link' @ [Finalized_Frame (msgid entry) pkt]\<rparr>)"

subsection \<open>The channel accessor of class GCS\<close>

text \<open>\<^verbatim>\<open>class GCS\<close>: \<^verbatim>\<open>uint8_t _num_gcs\<close> and the array
  \<^verbatim>\<open>GCS_MAVLINK *_chan[MAVLINK_COMM_NUM_BUFFERS]\<close>. A slot holds a null pointer
  (\<open>None\<close>) or a backend. Reading a C++ array past its end is undefined; the model
  makes such a read the value \<open>Inl Out_Of_Bounds\<close>.\<close>

datatype access_error = Out_Of_Bounds

record 'b GCS =
  m_num_gcs :: uint8_t
  m_chan :: "'b option list"

definition array_read :: "'a list \<Rightarrow> nat \<Rightarrow> access_error + 'a" where
  "array_read xs i = (if i < length xs then Inr (xs ! i) else Inl Out_Of_Bounds)"

text \<open>\<^verbatim>\<open>GCS_MAVLINK_CHAN_METHOD_DEFINITIONS\<close>:
  \<^verbatim>\<open>if (ofs >= _num_gcs) { return nullptr; } return (subclass_name *)_chan[ofs];\<close>\<close>

definition chan :: "'b GCS \<Rightarrow> uint8_t \<Rightarrow> access_error + 'b option" where
  "chan g ofs = (if m_num_gcs g \<le> ofs then Inr None else array_read (m_chan g) (unat ofs))"

definition num_gcs :: "'b GCS \<Rightarrow> uint8_t" where
  "num_gcs g = m_num_gcs g"

section \<open>The deferred-message scheduler\<close>

text \<open>
  The header declares the scheduler's data (\<^verbatim>\<open>deferred_message[3]\<close>,
  \<^verbatim>\<open>deferred_message_bucket[10]\<close>, \<^verbatim>\<open>sending_bucket_id\<close>,
  \<^verbatim>\<open>bucket_message_ids_to_send\<close>) and the signatures of its operations. Their
  bodies are in a translation unit that is not among the sources, so each operation below
  is written from the declaration, its comment in the header, and the corresponding
  section of the specification. Where the specification leaves a choice open the choice
  made is stated.
\<close>

subsection \<open>What the operations take from their surroundings\<close>

text \<open>The scheduler's loop rate (\<^verbatim>\<open>SCHED_LOOP_RATE\<close>, in Hz), the channel's
  packet overhead (\<^verbatim>\<open>packet_overhead_chan\<close>), the wire length of each message
  (the \<^verbatim>\<open>MAVLINK_MSG_ID_*_LEN\<close> constants), the table from MAVLink ids to
  \<^verbatim>\<open>ap_message\<close> and the enumeration's last value \<^verbatim>\<open>MSG_LAST\<close>.\<close>

record environment =
  loop_rate_hz :: uint16_t
  packet_overhead :: uint8_t
  payload_len :: "ap_message \<Rightarrow> uint16_t"
  catalog :: "(uint32_t \<times> ap_message) list"
  MSG_LAST :: ap_message

subsection \<open>Loops over the fixed arrays\<close>

text \<open>The three searches that the operations below run over the array of special slots
  and the array of buckets. They are notions of the model, not functions of the header.

  The index of the first element that satisfies \<open>P\<close>, or \<open>None\<close> (the header's
  \<open>-1\<close>).\<close>

fun first_index :: "('a \<Rightarrow> bool) \<Rightarrow> 'a list \<Rightarrow> nat option" where
  "first_index P [] = None"
| "first_index P (x # xs) = (if P x then Some 0 else map_option Suc (first_index P xs))"

text \<open>The index of an element with the least \<open>f\<close>; among equals the lowest index.\<close>

fun arg_min_index :: "('a \<Rightarrow> nat) \<Rightarrow> 'a list \<Rightarrow> nat option" where
  "arg_min_index f [] = None"
| "arg_min_index f (x # xs) =
     (case arg_min_index f xs of
        None \<Rightarrow> Some 0
      | Some j \<Rightarrow> if f x \<le> f (xs ! j) then Some 0 else Some (Suc j))"

text \<open>Among the elements that are due, the index of one with the largest margin; among
  equals the lowest index.\<close>

fun most_overdue_index :: "('a \<Rightarrow> bool) \<Rightarrow> ('a \<Rightarrow> nat) \<Rightarrow> 'a list \<Rightarrow> nat option" where
  "most_overdue_index due margin [] = None"
| "most_overdue_index due margin (x # xs) =
     (case most_overdue_index due margin xs of
        None \<Rightarrow> if due x then Some 0 else None
      | Some j \<Rightarrow> if due x \<and> margin (xs ! j) \<le> margin x then Some 0 else Some (Suc j))"

subsection \<open>Time\<close>

text \<open>Modelled from the spec: the bodies of \<^verbatim>\<open>deferred_message_to_send_index\<close>
  and \<^verbatim>\<open>find_next_bucket_to_send\<close> are missing. The header fixes the types: both
  take \<^verbatim>\<open>uint16_t now16_ms\<close>, and \<^verbatim>\<open>last_sent_ms\<close> is a
  \<^verbatim>\<open>uint16_t\<close> "from AP_HAL::millis16()". The spec (sections 4.2 and 9) asks for
  the elapsed time as \<open>(now - last) mod 2^16\<close>, which is the subtraction of
  \<^verbatim>\<open>uint16_t\<close>, and for a bucket to be due when that is at least its
  interval.\<close>

definition ms_since_last_sent :: "uint16_t \<Rightarrow> uint16_t \<Rightarrow> uint16_t" where
  "ms_since_last_sent now16_ms last_ms = now16_ms - last_ms"

text \<open>Modelled from the spec: section 4.2. A bucket with a member is due when
  "now_ms - last_sent_timestamp >= interval_ms".\<close>

definition bucket_due :: "uint16_t \<Rightarrow> deferred_message_bucket_t \<Rightarrow> bool" where
  "bucket_due now16_ms b =
     (ap_message_ids b \<noteq> {} \<and> interval_ms b \<le> ms_since_last_sent now16_ms (last_sent_ms b))"

text \<open>Modelled from the spec: section 4.2. The margin by which a due bucket is overdue
  ("most overdue wins").\<close>

definition bucket_overdue_ms :: "uint16_t \<Rightarrow> deferred_message_bucket_t \<Rightarrow> nat" where
  "bucket_overdue_ms now16_ms b =
     unat (ms_since_last_sent now16_ms (last_sent_ms b) - interval_ms b)"

text \<open>Modelled from the spec: section 4.3. A specially handled message has the "same
  interval semantics as a Bucket of size one"; interval 0 means disabled.\<close>

definition message_due :: "uint16_t \<Rightarrow> deferred_message_t \<Rightarrow> bool" where
  "message_due now16_ms m =
     (dm_interval_ms m \<noteq> 0 \<and> dm_interval_ms m \<le> ms_since_last_sent now16_ms (dm_last_sent_ms m))"

text \<open>Modelled from the spec: section 4.3. The margin by which a due special message
  is overdue.\<close>

definition message_overdue_ms :: "uint16_t \<Rightarrow> deferred_message_t \<Rightarrow> nat" where
  "message_overdue_ms now16_ms m =
     unat (ms_since_last_sent now16_ms (dm_last_sent_ms m) - dm_interval_ms m)"

subsection \<open>Interval store\<close>

text \<open>Modelled from the spec: \<^verbatim>\<open>uint16_t cap_message_interval(uint16_t) const\<close>
  is declared with the comment "cap the MAVLink message rate. It can't be greater than
  0.8 * SCHED_LOOP_RATE"; its body is missing. A message sent every \<open>i\<close> ms has rate
  \<open>1000 / i\<close> Hz, which is at most \<open>0.8 * rate\<close> exactly when \<open>1250 \<le> i * rate\<close>;
  the least such whole number of milliseconds is \<open>1250 / rate\<close> rounded up. Interval 0
  (disabled) is left alone; a shorter non-zero interval is raised to the minimum
  (spec, section 7: clamped, not a failure). With a loop rate of 0 no interval meets the
  bound; the function then returns its argument.\<close>

definition min_message_interval_ms :: "uint16_t \<Rightarrow> nat" where
  "min_message_interval_ms rate_hz = (1250 + unat rate_hz - 1) div unat rate_hz"

text \<open>Modelled from the spec: \<^verbatim>\<open>cap_message_interval\<close> itself, with the
  loop rate as first argument.\<close>

definition cap_message_interval :: "uint16_t \<Rightarrow> uint16_t \<Rightarrow> uint16_t" where
  "cap_message_interval rate_hz interval =
     (if interval = 0 then 0
      else if unat interval < min_message_interval_ms rate_hz
      then of_nat (min_message_interval_ms rate_hz)
      else interval)"

text \<open>Modelled from the spec: \<^verbatim>\<open>int8_t get_deferred_message_index(const ap_message
  id) const\<close>, "returns index of id in deferred_message[] or -1 if not present".\<close>

definition get_deferred_message_index :: "GCS_MAVLINK \<Rightarrow> ap_message \<Rightarrow> nat option" where
  "get_deferred_message_index link msg_id =
     first_index (\<lambda>m. dm_id m = msg_id) (deferred_message link)"

text \<open>A notion of the model: the index of the first bucket whose bitmask holds
  \<open>msg_id\<close>.\<close>

definition bucket_of :: "GCS_MAVLINK \<Rightarrow> ap_message \<Rightarrow> nat option" where
  "bucket_of link msg_id =
     first_index (\<lambda>b. msg_id \<in> ap_message_ids b) (deferred_message_bucket link)"


text \<open>Modelled from the spec: \<^verbatim>\<open>bool get_ap_message_interval(ap_message id, uint16_t
  &interval_ms) const\<close> (the spec's \<open>get_interval\<close>, "a pure read"). There is no
  interval table in the class: a message's interval is that of its special slot or of the
  bucket that holds it.\<close>

definition get_ap_message_interval :: "GCS_MAVLINK \<Rightarrow> ap_message \<Rightarrow> uint16_t option" where
  "get_ap_message_interval link msg_id =
     (case get_deferred_message_index link msg_id of
        Some i \<Rightarrow> Some (dm_interval_ms (deferred_message link ! i))
      | None \<Rightarrow>
          (case bucket_of link msg_id of
             Some b \<Rightarrow> Some (interval_ms (deferred_message_bucket link ! b))
           | None \<Rightarrow> None))"

text \<open>Modelled from the spec: \<^verbatim>\<open>void remove_message_from_bucket(int8_t bucket,
  ap_message id)\<close> clears the bit of \<open>msg_id\<close> in that bucket. The cached bucket to send is
  "invalidated whenever ... state changes" (spec, section 3).\<close>

definition remove_message_from_bucket :: "nat \<Rightarrow> ap_message \<Rightarrow> GCS_MAVLINK \<Rightarrow> GCS_MAVLINK" where
  "remove_message_from_bucket bucket msg_id link =
     (let buckets = deferred_message_bucket link;
          b = buckets ! bucket
      in link\<lparr>deferred_message_bucket :=
                  buckets[bucket := b\<lparr>ap_message_ids := ap_message_ids b - {msg_id}\<rparr>],
               sending_bucket_id := no_bucket_to_send,
               bucket_message_ids_to_send := {}\<rparr>)"

text \<open>Modelled from the spec: section 4.2, "the closest existing interval". The distance
  between a bucket's interval and a requested one.\<close>

definition interval_delta :: "uint16_t \<Rightarrow> deferred_message_bucket_t \<Rightarrow> nat" where
  "interval_delta interval b = nat \<bar>uint (interval_ms b) - uint interval\<bar>"

text \<open>Modelled from the spec: section 4.2, regrouping. The message joins "an existing
  Bucket with the matching interval", or else an unused bucket slot is allocated, or else,
  "if no Bucket slot is free", it is merged "into the closest existing interval". A slot is
  unused when its bitmask is empty; the lowest index wins each search. The result is the
  bucket's index and whether the slot is newly allocated.\<close>

definition choose_bucket :: "uint16_t \<Rightarrow> deferred_message_bucket_t list \<Rightarrow> (nat \<times> bool) option" where
  "choose_bucket interval buckets =
     (case first_index (\<lambda>b. ap_message_ids b \<noteq> {} \<and> interval_ms b = interval) buckets of
        Some i \<Rightarrow> Some (i, False)
      | None \<Rightarrow>
          (case first_index (\<lambda>b. ap_message_ids b = {}) buckets of
             Some i \<Rightarrow> Some (i, True)
           | None \<Rightarrow> map_option (\<lambda>i. (i, False)) (arg_min_index (interval_delta interval) buckets)))"

text \<open>Modelled from the spec: section 4.2, regrouping. The bit of \<open>msg_id\<close> is set in
  the chosen bucket; a newly allocated bucket takes the requested interval and starts it at
  \<open>now16_ms\<close>. The cached bucket to send is dropped, as in
  \<^verbatim>\<open>remove_message_from_bucket\<close>. With no bucket at all (an array of length 0)
  the result is false.\<close>

definition add_message_to_bucket ::
    "uint16_t \<Rightarrow> ap_message \<Rightarrow> uint16_t \<Rightarrow> GCS_MAVLINK \<Rightarrow> bool \<times> GCS_MAVLINK" where
  "add_message_to_bucket now16_ms msg_id interval link =
     (let buckets = deferred_message_bucket link in
      case choose_bucket interval buckets of
        None \<Rightarrow> (False, link)
      | Some (i, fresh) \<Rightarrow>
          (let b = (if fresh
                    then \<lparr>ap_message_ids = {msg_id}, interval_ms = interval, last_sent_ms = now16_ms\<rparr>
                    else (buckets ! i)\<lparr>ap_message_ids := insert msg_id (ap_message_ids (buckets ! i))\<rparr>)
           in (True, link\<lparr>deferred_message_bucket := buckets[i := b],
                          sending_bucket_id := no_bucket_to_send,
                          bucket_message_ids_to_send := {}\<rparr>)))"

text \<open>Modelled from the spec: \<^verbatim>\<open>bool set_ap_message_interval(enum ap_message id,
  uint16_t interval_ms)\<close> (the spec's \<open>set_interval\<close>, sections 4.1 and 4.2). The
  interval is capped first. A specially handled message keeps its own slot and is never
  put into a bucket (header: they "are stored separately to stream-rated messages"; spec,
  section 3: "never regrouped"). Any other message is taken out of its bucket and, unless
  it is now disabled, regrouped. Disabling a message that is in no bucket changes nothing
  (spec, P4). \<open>now16_ms\<close> is \<^verbatim>\<open>AP_HAL::millis16()\<close> at the call: a newly
  allocated bucket starts its interval then.\<close>

definition set_ap_message_interval ::
    "environment \<Rightarrow> uint16_t \<Rightarrow> ap_message \<Rightarrow> uint16_t \<Rightarrow> GCS_MAVLINK \<Rightarrow> bool \<times> GCS_MAVLINK" where
  "set_ap_message_interval env now16_ms msg_id interval link =
     (let capped = cap_message_interval (loop_rate_hz env) interval in
      case get_deferred_message_index link msg_id of
        Some i \<Rightarrow>
          (True, link\<lparr>deferred_message :=
                    (deferred_message link)[i := (deferred_message link ! i)\<lparr>dm_interval_ms := capped\<rparr>]\<rparr>)
      | None \<Rightarrow>
          (case bucket_of link msg_id of
             None \<Rightarrow> if capped = 0 then (True, link)
                      else add_message_to_bucket now16_ms msg_id capped link
           | Some b \<Rightarrow>
               if capped = 0 then (True, remove_message_from_bucket b msg_id link)
               else add_message_to_bucket now16_ms msg_id capped
                      (remove_message_from_bucket b msg_id link)))"

text \<open>Modelled from the spec: \<^verbatim>\<open>ap_message mavlink_id_to_ap_message_id(const
  uint32_t mavlink_id) const\<close>, "map a mavlink ID to an ap_message ... Returns MSG_LAST
  if no such mapping exists". The mapping is the table \<open>catalog\<close>.\<close>

definition mavlink_id_to_ap_message_id :: "environment \<Rightarrow> uint32_t \<Rightarrow> ap_message" where
  "mavlink_id_to_ap_message_id env mavlink_id =
     (case map_of (catalog env) mavlink_id of
        Some msg_id \<Rightarrow> msg_id
      | None \<Rightarrow> MSG_LAST env)"

text \<open>Modelled from the spec: \<^verbatim>\<open>bool set_mavlink_message_id_interval(const
  uint32_t mavlink_id, const uint16_t interval_ms)\<close>, "Returns false on failure
  (typically because there is no mapping from that mavlink ID to an ap_message)"; spec,
  section 7: an unknown message id is "rejected, no state change".\<close>

definition set_mavlink_message_id_interval ::
    "environment \<Rightarrow> uint16_t \<Rightarrow> uint32_t \<Rightarrow> uint16_t \<Rightarrow> GCS_MAVLINK \<Rightarrow> bool \<times> GCS_MAVLINK" where
  "set_mavlink_message_id_interval env now16_ms mavlink_id interval link =
     (let msg_id = mavlink_id_to_ap_message_id env mavlink_id in
      if msg_id = MSG_LAST env then (False, link)
      else set_ap_message_interval env now16_ms msg_id interval link)"

subsection \<open>Bucket scheduler\<close>

text \<open>Modelled from the spec: \<^verbatim>\<open>int8_t deferred_message_to_send_index(uint16_t
  now16_ms)\<close>, "returns index of a message in deferred_message[] which should be sent
  (or -1 if none to send at the moment)".\<close>

definition deferred_message_to_send_index :: "uint16_t \<Rightarrow> GCS_MAVLINK \<Rightarrow> nat option" where
  "deferred_message_to_send_index now16_ms link =
     most_overdue_index (message_due now16_ms) (message_overdue_ms now16_ms)
       (deferred_message link)"

text \<open>Modelled from the spec: section 4.2. \<^verbatim>\<open>void
  find_next_bucket_to_send(uint16_t now16_ms)\<close> scans the buckets and picks "the one
  whose now_ms - last_sent_timestamp >= interval_ms by the largest margin (most overdue
  wins; ties broken by lowest bucket index)", caches its index in
  \<^verbatim>\<open>sending_bucket_id\<close> and loads \<^verbatim>\<open>bucket_message_ids_to_send\<close> (the
  members still to be attempted in this sweep) with its bitmask.\<close>

definition find_next_bucket_to_send :: "uint16_t \<Rightarrow> GCS_MAVLINK \<Rightarrow> GCS_MAVLINK" where
  "find_next_bucket_to_send now16_ms link =
     (case most_overdue_index (bucket_due now16_ms) (bucket_overdue_ms now16_ms)
             (deferred_message_bucket link) of
        None \<Rightarrow> link\<lparr>sending_bucket_id := no_bucket_to_send, bucket_message_ids_to_send := {}\<rparr>
      | Some i \<Rightarrow>
          link\<lparr>sending_bucket_id := of_nat i,
               bucket_message_ids_to_send := ap_message_ids (deferred_message_bucket link ! i)\<rparr>)"

text \<open>Modelled from the spec: section 4.2. \<^verbatim>\<open>ap_message
  next_deferred_bucket_message_to_send(uint16_t now16_ms)\<close>. "If no cached next bucket
  exists", the buckets are scanned; the candidate is the member of the sweep mask with the
  lowest bit. \<open>None\<close> stands for \<^verbatim>\<open>no_message_to_send\<close>.\<close>

definition next_deferred_bucket_message_to_send ::
    "uint16_t \<Rightarrow> GCS_MAVLINK \<Rightarrow> ap_message option \<times> GCS_MAVLINK" where
  "next_deferred_bucket_message_to_send now16_ms link =
     (let link' = (if is_streaming link then link else find_next_bucket_to_send now16_ms link)
      in if is_streaming link' \<and> bucket_message_ids_to_send link' \<noteq> {}
         then (Some (Min (bucket_message_ids_to_send link')), link')
         else (None, link'))"

text \<open>Modelled from the spec: \<^verbatim>\<open>bool do_try_send_message(const ap_message id)\<close>.
  The send functions start with \<^verbatim>\<open>CHECK_PAYLOAD_SIZE(id)\<close>, which "will
  immediately return false from the current function if there is no room"; otherwise the
  message is serialized and written.\<close>

definition do_try_send_message :: "environment \<Rightarrow> ap_message \<Rightarrow> GCS_MAVLINK \<Rightarrow> bool \<times> GCS_MAVLINK" where
  "do_try_send_message env msg_id link =
     (case check_payload_size (packet_overhead env) link (payload_len env msg_id) of
        (False, link') \<Rightarrow> (False, link')
      | (True, link') \<Rightarrow> (True, link'\<lparr>tx_log := tx_log link' @ [Scheduled_Frame msg_id]\<rparr>))"

text \<open>Modelled from the spec: section 4.2. After a send the candidate's bit is cleared
  from the sweep mask; "when all members of the sweep mask have been attempted", the
  bucket's \<^verbatim>\<open>last_sent_ms\<close> advances (to the time of the call) and the cached
  bucket is dropped, so that the next call scans again.\<close>

definition bucket_message_sent :: "uint16_t \<Rightarrow> ap_message \<Rightarrow> GCS_MAVLINK \<Rightarrow> GCS_MAVLINK" where
  "bucket_message_sent now16_ms msg_id link =
     (let pending = bucket_message_ids_to_send link - {msg_id};
          b = unat (sending_bucket_id link);
          buckets = deferred_message_bucket link
      in if pending \<noteq> {} then link\<lparr>bucket_message_ids_to_send := pending\<rparr>
         else link\<lparr>deferred_message_bucket := buckets[b := (buckets ! b)\<lparr>last_sent_ms := now16_ms\<rparr>],
                   sending_bucket_id := no_bucket_to_send,
                   bucket_message_ids_to_send := {}\<rparr>)"

text \<open>Modelled from the spec: section 4.6. The "tri-state result" of one scheduling
  call.\<close>

datatype service_result = Sent ap_message | NothingDue | DeferredNoSpace

text \<open>Modelled from the spec: sections 4.2 and 4.6. The bucket scheduler's part of one
  scheduling call. A candidate that fails admission "is not marked sent". The spec also
  asks that the call then goes on to the next-most-overdue bucket; the header has one
  cached bucket and one sweep mask only, and that fall-through is not part of the
  model.\<close>

definition send_next_bucket_message ::
    "environment \<Rightarrow> uint16_t \<Rightarrow> GCS_MAVLINK \<Rightarrow> service_result \<times> GCS_MAVLINK" where
  "send_next_bucket_message env now16_ms link =
     (case next_deferred_bucket_message_to_send now16_ms link of
        (None, link') \<Rightarrow> (NothingDue, link')
      | (Some msg_id, link') \<Rightarrow>
          (case do_try_send_message env msg_id link' of
             (False, link'') \<Rightarrow> (DeferredNoSpace, link'')
           | (True, link'') \<Rightarrow> (Sent msg_id, bucket_message_sent now16_ms msg_id link'')))"

text \<open>Modelled from the spec: sections 4.6 and 5. One scheduling call on a channel
  (\<^verbatim>\<open>update_send\<close>). A locked channel is left untouched; the specially handled
  messages come before the buckets; at most one message is written. The per-call time
  budget is not part of the model.\<close>

definition service :: "environment \<Rightarrow> uint16_t \<Rightarrow> GCS_MAVLINK \<Rightarrow> service_result \<times> GCS_MAVLINK" where
  "service env now16_ms link =
     (if locked link then (NothingDue, link)
      else
        (case deferred_message_to_send_index now16_ms link of
           Some i \<Rightarrow>
             (let m = deferred_message link ! i in
              case do_try_send_message env (dm_id m) link of
                (False, link') \<Rightarrow> (DeferredNoSpace, link')
              | (True, link') \<Rightarrow>
                  (Sent (dm_id m),
                   link'\<lparr>deferred_message :=
                           (deferred_message link')[i := m\<lparr>dm_last_sent_ms := now16_ms\<rparr>]\<rparr>))
         | None \<Rightarrow> send_next_bucket_message env now16_ms link))"

subsection \<open>A channel over time\<close>

text \<open>Modelled from the spec: the constructor \<^verbatim>\<open>GCS_MAVLINK(AP_HAL::UARTDriver
  &uart)\<close> is declared only. The in-class initialisers give the ids of the specially
  handled messages (here the list \<open>special\<close>) and
  \<^verbatim>\<open>sending_bucket_id = no_bucket_to_send\<close>; every other member starts zero or
  empty, and the array of buckets has its ten slots.\<close>

definition new_channel :: "ap_message list \<Rightarrow> GCS_MAVLINK" where
  "new_channel special =
     \<lparr>m_locked = False,
      m_port_txspace = 0,
      out_of_space_to_send_count = 0,
      deferred_message =
        map (\<lambda>msg_id. \<lparr>dm_id = msg_id, dm_interval_ms = 0, dm_last_sent_ms = 0\<rparr>) special,
      deferred_message_bucket =
        replicate 10 \<lparr>ap_message_ids = {}, interval_ms = 0, last_sent_ms = 0\<rparr>,
      sending_bucket_id = no_bucket_to_send,
      bucket_message_ids_to_send = {},
      pushed_ap_message_ids = {},
      tx_log = []\<rparr>"

text \<open>A notion of the model: what can happen to a channel. An interval is set (by
  \<^verbatim>\<open>ap_message\<close> or by MAVLink id), a scheduling call runs, the channel is
  locked or unlocked, or the transport reports another amount of free space. \<open>run\<close>
  applies a sequence of such calls.\<close>

datatype call =
  Set_Interval uint16_t ap_message uint16_t
  | Set_Mavlink_Interval uint16_t uint32_t uint16_t
  | Service uint16_t
  | Lock bool
  | Port_Txspace uint32_t

fun step :: "environment \<Rightarrow> call \<Rightarrow> GCS_MAVLINK \<Rightarrow> GCS_MAVLINK" where
  "step env (Set_Interval now16_ms msg_id interval) link =
     snd (set_ap_message_interval env now16_ms msg_id interval link)"
| "step env (Set_Mavlink_Interval now16_ms mavlink_id interval) link =
     snd (set_mavlink_message_id_interval env now16_ms mavlink_id interval link)"
| "step env (Service now16_ms) link = snd (service env now16_ms link)"
| "step env (Lock l) link = lock l link"
| "step env (Port_Txspace n) link = link\<lparr>m_port_txspace := n\<rparr>"

fun run :: "environment \<Rightarrow> call list \<Rightarrow> GCS_MAVLINK \<Rightarrow> GCS_MAVLINK" where
  "run env [] link = link"
| "run env (c # cs) link = run env cs (step env c link)"

subsection \<open>Well-formed bucket arrays\<close>



text \<open>Every interval in use (of a bucket with a member, or of a special slot that is not
  disabled) is at least the minimum for the scheduler's loop rate.\<close>

definition intervals_capped :: "environment \<Rightarrow> GCS_MAVLINK \<Rightarrow> bool" where
  "intervals_capped env link \<longleftrightarrow>
     (\<forall>b \<in> set (deferred_message_bucket link).
        ap_message_ids b \<noteq> {} \<longrightarrow>
          min_message_interval_ms (loop_rate_hz env) \<le> unat (interval_ms b))
     \<and> (\<forall>m \<in> set (deferred_message link).
          dm_interval_ms m = 0
          \<or> min_message_interval_ms (loop_rate_hz env) \<le> unat (dm_interval_ms m))"

text \<open>Every bitmask of the channel has finitely many bits set.\<close>

definition masks_finite :: "GCS_MAVLINK \<Rightarrow> bool" where
  "masks_finite link \<longleftrightarrow>
     (\<forall>b \<in> set (deferred_message_bucket link). finite (ap_message_ids b))
     \<and> finite (bucket_message_ids_to_send link)"

subsection \<open>An environment for concrete runs\<close>

text \<open>A 400 Hz scheduler loop, 12 bytes of packet overhead, 28 bytes for every message,
  and a table that knows the MAVLink ids 0 and 30.\<close>

definition example_environment :: environment where
  "example_environment =
     \<lparr>loop_rate_hz = 400, packet_overhead = 12, payload_len = (\<lambda>m. 28),
      catalog = [(0, 0), (30, 10)], MSG_LAST = 100\<rparr>"

section \<open>Properties of the code in the header\<close>

subsection \<open>Word arithmetic of the space check\<close>

lemma unat_ucast_8_32: "unat (ucast (w :: 8 word) :: 32 word) = unat w"
proof -
  have "unat w < 2 ^ LENGTH(8)" by (rule unsigned_less)
  then have "unat w < 2 ^ 32" by simp
  then show ?thesis by (simp add: unsigned_ucast_eq take_bit_nat_eq_self)
qed

lemma unat_ucast_16_32: "unat (ucast (w :: 16 word) :: 32 word) = unat w"
proof -
  have "unat w < 2 ^ LENGTH(16)" by (rule unsigned_less)
  then have "unat w < 2 ^ 32" by simp
  then show ?thesis by (simp add: unsigned_ucast_eq take_bit_nat_eq_self)
qed

text \<open>The sum of overhead and length never wraps: it is below \<open>2^8 + 2^16\<close>.\<close>

lemma unat_PAYLOAD_SIZE:
  "unat (PAYLOAD_SIZE overhead len) = unat overhead + unat len"
proof -
  have "unat overhead < 2 ^ LENGTH(8)" by (rule unsigned_less)
  then have a: "unat overhead < 2 ^ 8" by simp
  have "unat len < 2 ^ LENGTH(16)" by (rule unsigned_less)
  then have b: "unat len < 2 ^ 16" by simp
  have "unat (ucast overhead :: 32 word) + unat (ucast len :: 32 word) < 2 ^ LENGTH(32)"
    using a b by (simp add: unat_ucast_8_32 unat_ucast_16_32)
  then have "unat (ucast overhead + ucast len :: 32 word)
      = unat (ucast overhead :: 32 word) + unat (ucast len :: 32 word)"
    by (simp only: unat_add_lem)
  then show ?thesis
    by (simp add: PAYLOAD_SIZE_def unat_ucast_8_32 unat_ucast_16_32)
qed

lemma unat_min_word: "unat (min a b) = min (unat a) (unat b)" for a b :: "'a::len word"
  by (simp add: min_def word_le_nat_alt)

lemma unat_txspace:
  "unat (txspace link) = (if m_locked link then 0 else min (unat (m_port_txspace link)) 8192)"
proof (cases "m_locked link")
  case True
  then show ?thesis by (simp add: txspace_def)
next
  case False
  have "min (unat (m_port_txspace link)) 8192 < 2 ^ 16" by simp
  then have "unat (ucast (min (m_port_txspace link) 8192) :: 16 word)
     = min (unat (m_port_txspace link)) 8192"
    by (simp add: unsigned_ucast_eq take_bit_nat_eq_self unat_min_word)
  with False show ?thesis by (simp add: txspace_def)
qed

subsection \<open>What the space checks return and change\<close>

lemma HAVE_PAYLOAD_SPACE_fst:
  "fst (HAVE_PAYLOAD_SPACE overhead link len) = (unat overhead + unat len \<le> unat (txspace link))"
  by (simp add: HAVE_PAYLOAD_SPACE_def comm_get_txspace_def word_le_nat_alt
      unat_PAYLOAD_SIZE unat_ucast_16_32)

lemma check_payload_size_fst:
  "fst (check_payload_size overhead link len) = (unat overhead + unat len \<le> unat (txspace link))"
  by (simp add: check_payload_size_def word_less_nat_alt
      unat_PAYLOAD_SIZE unat_ucast_16_32 not_less)

lemma HAVE_PAYLOAD_SPACE_snd:
  "snd (HAVE_PAYLOAD_SPACE overhead link len) =
     (if unat overhead + unat len \<le> unat (txspace link) then link
      else link\<lparr>out_of_space_to_send_count := out_of_space_to_send_count link + 1\<rparr>)"
  by (simp add: HAVE_PAYLOAD_SPACE_def comm_get_txspace_def word_le_nat_alt
      unat_PAYLOAD_SIZE unat_ucast_16_32 gcs_out_of_space_to_send_def out_of_space_to_send_def)

lemma check_payload_size_snd:
  "snd (check_payload_size overhead link len) =
     (if unat overhead + unat len \<le> unat (txspace link) then link
      else link\<lparr>out_of_space_to_send_count := out_of_space_to_send_count link + 1\<rparr>)"
  by (simp add: check_payload_size_def word_less_nat_alt not_less
      unat_PAYLOAD_SIZE unat_ucast_16_32 gcs_out_of_space_to_send_def out_of_space_to_send_def)

lemma send_mission_ack_eq:
  "send_mission_ack overhead len sysid compid mission_type result link =
     (if unat overhead + unat len \<le> unat (txspace link)
      then link\<lparr>tx_log := tx_log link @ [Mission_Ack_Frame sysid compid result mission_type]\<rparr>
      else link\<lparr>out_of_space_to_send_count := out_of_space_to_send_count link + 1\<rparr>)"
proof -
  have "HAVE_PAYLOAD_SPACE overhead link len =
      (fst (HAVE_PAYLOAD_SPACE overhead link len), snd (HAVE_PAYLOAD_SPACE overhead link len))"
    by simp
  then show ?thesis
    unfolding send_mission_ack_def
    by (simp add: HAVE_PAYLOAD_SPACE_fst HAVE_PAYLOAD_SPACE_snd del: prod.collapse)
qed

lemma send_message_eq:
  "send_message overhead pkt entry link =
     (if unat overhead + unat (max_msg_len entry) \<le> unat (txspace link)
      then link\<lparr>tx_log := tx_log link @ [Finalized_Frame (msgid entry) pkt]\<rparr>
      else link\<lparr>out_of_space_to_send_count := out_of_space_to_send_count link + 1\<rparr>)"
proof -
  have "check_payload_size overhead link (max_msg_len entry) =
      (fst (check_payload_size overhead link (max_msg_len entry)),
       snd (check_payload_size overhead link (max_msg_len entry)))"
    by simp
  then show ?thesis
    unfolding send_message_def
    by (simp add: check_payload_size_fst check_payload_size_snd del: prod.collapse)
qed

subsection \<open>Admission\<close>

text \<open>
  Claim C1. For every channel, overhead and message length, the admission check
  (\<^verbatim>\<open>HAVE_PAYLOAD_SPACE\<close>, and \<^verbatim>\<open>check_payload_size\<close> with the same
  contract) is true exactly when the channel's available transmit space is at least the
  message's wire length plus the channel's protocol overhead, the sum taken without
  wrap-around. Consequently \<^verbatim>\<open>send_mission_ack\<close> and
  \<^verbatim>\<open>send_message\<close> hand a frame to the transport exactly when the required
  bytes fit the space observed at the check, and write nothing otherwise.
\<close>

theorem admission_iff_space:
  "fst (HAVE_PAYLOAD_SPACE overhead link len)
     = (unat len + unat overhead \<le> unat (comm_get_txspace link))
   \<and> fst (check_payload_size overhead link len)
     = (unat len + unat overhead \<le> unat (txspace link))
   \<and> tx_log (send_mission_ack overhead len sysid compid mission_type result link)
     = (if unat len + unat overhead \<le> unat (txspace link)
        then tx_log link @ [Mission_Ack_Frame sysid compid result mission_type]
        else tx_log link)
   \<and> tx_log (send_message overhead pkt entry link)
     = (if unat (max_msg_len entry) + unat overhead \<le> unat (txspace link)
        then tx_log link @ [Finalized_Frame (msgid entry) pkt]
        else tx_log link)"
  by (simp add: HAVE_PAYLOAD_SPACE_fst check_payload_size_fst send_mission_ack_eq
      send_message_eq comm_get_txspace_def add.commute)

subsection \<open>The out-of-space counter\<close>


subsection \<open>Locking\<close>

text \<open>
  Claim C3. Locking a channel makes \<^verbatim>\<open>txspace()\<close> report zero and changes no
  member but \<^verbatim>\<open>_locked\<close>; locking twice is locking once; \<^verbatim>\<open>locked()\<close>
  is the argument of the last \<^verbatim>\<open>lock\<close> call. On a locked channel the admission
  check only passes for a frame of zero bytes, so \<^verbatim>\<open>send_mission_ack\<close> writes
  nothing for any frame that has a byte.
\<close>

theorem lock_reports_no_space:
  "txspace (lock True link) = 0
   \<and> lock True link = link\<lparr>m_locked := True\<rparr>
   \<and> lock l (lock l link) = lock l link
   \<and> locked (lock l link) = l
   \<and> locked (lock l2 (lock l1 link)) = l2
   \<and> fst (HAVE_PAYLOAD_SPACE overhead (lock True link) len) = (overhead = 0 \<and> len = 0)
   \<and> tx_log (send_mission_ack overhead len sysid compid mission_type result (lock True link))
     = (if overhead = 0 \<and> len = 0
        then tx_log link @ [Mission_Ack_Frame sysid compid result mission_type]
        else tx_log link)"
  by (simp add: HAVE_PAYLOAD_SPACE_fst send_mission_ack_eq unat_txspace lock_def locked_def
      txspace_def unat_eq_0)

subsection \<open>The cap on the reported transmit space\<close>

text \<open>
  Claim C9. On an unlocked channel \<^verbatim>\<open>txspace()\<close> is the minimum of the space the
  port reports and 8192, so it never exceeds 8192 whatever the driver reports.
\<close>

theorem txspace_capped:
  "\<not> locked link \<Longrightarrow>
     unat (txspace link) = min (unat (m_port_txspace link)) 8192 \<and> unat (txspace link) \<le> 8192"
  by (simp add: unat_txspace locked_def)

theorem txspace_capped_witness:
  "\<not> locked ((new_channel [0, 1])\<lparr>m_port_txspace := 20000\<rparr>)
   \<and> unat (txspace ((new_channel [0, 1])\<lparr>m_port_txspace := 20000\<rparr>)) = 8192"
  using txspace_capped [of "(new_channel [0, 1])\<lparr>m_port_txspace := 20000\<rparr>"]
  by (simp add: locked_def new_channel_def)

subsection \<open>The channel accessor\<close>

text \<open>
  Claim C10. For an offset at or beyond \<^verbatim>\<open>_num_gcs\<close>, \<^verbatim>\<open>chan(ofs)\<close>
  returns the null pointer without reading the array; for a smaller offset it returns what
  the array holds at that index. When \<^verbatim>\<open>_num_gcs\<close> does not exceed the size of the
  array, no call reads out of bounds.
\<close>

theorem chan_null_beyond_num_gcs:
  "(m_num_gcs g \<le> ofs \<longrightarrow> chan g ofs = Inr None)
   \<and> (ofs < m_num_gcs g \<longrightarrow> chan g ofs = array_read (m_chan g) (unat ofs))
   \<and> (unat (m_num_gcs g) \<le> length (m_chan g) \<longrightarrow>
        chan g ofs = Inr (if m_num_gcs g \<le> ofs then None else m_chan g ! unat ofs))"
  by (auto simp: chan_def array_read_def word_le_nat_alt word_less_nat_alt not_le)

theorem chan_null_beyond_num_gcs_witness:
  "m_num_gcs \<lparr>m_num_gcs = 2, m_chan = [Some (10 :: nat), Some 11, None]\<rparr> \<le> 5
   \<and> chan \<lparr>m_num_gcs = 2, m_chan = [Some (10 :: nat), Some 11, None]\<rparr> 5 = Inr None
   \<and> 1 < m_num_gcs \<lparr>m_num_gcs = 2, m_chan = [Some (10 :: nat), Some 11, None]\<rparr>
   \<and> unat (m_num_gcs \<lparr>m_num_gcs = 2, m_chan = [Some (10 :: nat), Some 11, None]\<rparr>)
       \<le> length (m_chan \<lparr>m_num_gcs = 2, m_chan = [Some (10 :: nat), Some 11, None]\<rparr>)
   \<and> chan \<lparr>m_num_gcs = 2, m_chan = [Some (10 :: nat), Some 11, None]\<rparr> 1 = Inr (Some 11)"
  using chan_null_beyond_num_gcs [of "\<lparr>m_num_gcs = 2, m_chan = [Some (10 :: nat), Some 11, None]\<rparr>" 5]
    chan_null_beyond_num_gcs [of "\<lparr>m_num_gcs = 2, m_chan = [Some (10 :: nat), Some 11, None]\<rparr>" 1]
  by (simp add: array_read_def)

section \<open>Properties of the deferred-message scheduler\<close>

subsection \<open>Searching the arrays\<close>

lemma first_index_Some:
  "first_index P xs = Some i \<Longrightarrow> i < length xs \<and> P (xs ! i)"
  by (induction xs arbitrary: i) (auto split: if_splits)

lemma first_index_None: "first_index P xs = None \<longleftrightarrow> (\<forall>x \<in> set xs. \<not> P x)"
  by (induction xs) auto

lemma arg_min_index_less: "arg_min_index f xs = Some i \<Longrightarrow> i < length xs"
  by (induction xs arbitrary: i) (auto split: option.splits if_splits)


lemma most_overdue_index_Some:
  "most_overdue_index due margin xs = Some i \<Longrightarrow> i < length xs \<and> due (xs ! i)"
  by (induction xs arbitrary: i) (auto split: option.splits if_splits)


lemma map_update_same: "f x = f (xs ! i) \<Longrightarrow> map f (xs[i := x]) = map f xs"
  by (metis list_update_beyond list_update_id map_update not_le_imp_less)

lemma set_update_cases:
  "x \<in> set (xs[k := y]) \<Longrightarrow> x = y \<or> x \<in> set xs"
  by (metis in_set_conv_nth length_list_update nth_list_update_eq nth_list_update_neq)

lemma map_pair_eq:
  "map f xs' = map f xs \<Longrightarrow> map g xs' = map g xs \<Longrightarrow>
     map (\<lambda>b. (f b, g b)) xs' = map (\<lambda>b. (f b, g b)) xs"
proof -
  assume f: "map f xs' = map f xs" and g: "map g xs' = map g xs"
  have len: "length xs' = length xs" using f by (metis length_map)
  show ?thesis
  proof (rule nth_equalityI)
    show "length (map (\<lambda>b. (f b, g b)) xs') = length (map (\<lambda>b. (f b, g b)) xs)"
      using len by simp
  next
    fix i assume "i < length (map (\<lambda>b. (f b, g b)) xs')"
    then have i: "i < length xs" "i < length xs'" using len by simp_all
    have "f (xs' ! i) = f (xs ! i)" using f i by (metis nth_map)
    moreover have "g (xs' ! i) = g (xs ! i)" using g i by (metis nth_map)
    ultimately show "map (\<lambda>b. (f b, g b)) xs' ! i = map (\<lambda>b. (f b, g b)) xs ! i"
      using i by simp
  qed
qed

subsection \<open>Unknown MAVLink ids\<close>

text \<open>
  Claim C5. When the table from MAVLink ids to \<^verbatim>\<open>ap_message\<close> has no entry for a
  MAVLink id, \<^verbatim>\<open>mavlink_id_to_ap_message_id\<close> returns \<^verbatim>\<open>MSG_LAST\<close>
  and \<^verbatim>\<open>set_mavlink_message_id_interval\<close> returns false and leaves the whole
  channel, with every interval and bucket, as it was.
\<close>

theorem unknown_mavlink_id_rejected:
  "mavlink_id \<notin> fst ` set (catalog env) \<Longrightarrow>
     mavlink_id_to_ap_message_id env mavlink_id = MSG_LAST env
     \<and> set_mavlink_message_id_interval env now16_ms mavlink_id interval link = (False, link)"
proof -
  assume "mavlink_id \<notin> fst ` set (catalog env)"
  then have "map_of (catalog env) mavlink_id = None"
    by (simp add: map_of_eq_None_iff)
  then show ?thesis
    by (simp add: set_mavlink_message_id_interval_def mavlink_id_to_ap_message_id_def)
qed

theorem unknown_mavlink_id_rejected_witness:
  "77 \<notin> fst ` set (catalog example_environment)
   \<and> set_mavlink_message_id_interval example_environment 5 77 100 (new_channel [0, 1])
       = (False, new_channel [0, 1])"
  using unknown_mavlink_id_rejected [of 77 example_environment 5 100 "new_channel [0, 1]"]
  by (simp add: example_environment_def)

subsection \<open>Elapsed time on the 16-bit clock\<close>






subsection \<open>The cap on message intervals\<close>

lemma min_message_interval_ms_props:
  assumes "rate_hz \<noteq> 0"
  shows "1250 \<le> min_message_interval_ms rate_hz * unat rate_hz"
    and "min_message_interval_ms rate_hz \<le> 1250"
    and "0 < min_message_interval_ms rate_hz"
proof -
  define r where "r = unat rate_hz"
  define n where "n = 1250 + r - 1"
  have r: "0 < r" using assms by (simp add: r_def unat_gt_0)
  have m: "min_message_interval_ms rate_hz = n div r"
    by (simp add: min_message_interval_ms_def n_def r_def)
  have "n mod r < r" using r by simp
  moreover have "n div r * r + n mod r = n" by simp
  moreover have "n = 1249 + r" using r by (simp add: n_def)
  ultimately show "1250 \<le> min_message_interval_ms rate_hz * unat rate_hz"
    unfolding m r_def [symmetric] by linarith
  have "n \<le> 1250 * r" using r by (simp add: n_def)
  then have "n div r \<le> (1250 * r) div r" by (rule div_le_mono)
  then show "min_message_interval_ms rate_hz \<le> 1250"
    using r by (simp add: m)
  have "r \<le> n" by (simp add: n_def)
  then show "0 < min_message_interval_ms rate_hz"
    using r by (simp add: m div_greater_zero_iff)
qed

lemma unat_of_nat_min_interval:
  assumes "rate_hz \<noteq> 0"
  shows "unat (of_nat (min_message_interval_ms rate_hz) :: 16 word) = min_message_interval_ms rate_hz"
proof -
  have "min_message_interval_ms rate_hz < 2 ^ 16"
    using min_message_interval_ms_props(2) [OF assms] by simp
  then show ?thesis by (simp add: unat_of_nat take_bit_nat_eq_self)
qed

lemma cap_message_interval_unat:
  assumes "rate_hz \<noteq> 0" "interval \<noteq> 0"
  shows "unat (cap_message_interval rate_hz interval)
     = max (unat interval) (min_message_interval_ms rate_hz)"
  using assms by (simp add: cap_message_interval_def unat_of_nat_min_interval max_def)

lemma rate_bound_real:
  assumes "1250 \<le> c * r" "0 < c"
  shows "1000 / real c \<le> 0.8 * real r"
proof -
  have "real 1250 \<le> real (c * r)" using assms(1) by (simp only: of_nat_le_iff)
  then have "1250 \<le> real c * real r" by simp
  then have "1000 \<le> (0.8 * real r) * real c" by simp
  then show ?thesis using assms(2) by (simp add: divide_le_eq)
qed

lemma cap_message_interval_rate:
  assumes "rate_hz \<noteq> 0" "interval \<noteq> 0"
  shows "cap_message_interval rate_hz interval \<noteq> 0
    \<and> min_message_interval_ms rate_hz \<le> unat (cap_message_interval rate_hz interval)
    \<and> unat (cap_message_interval rate_hz interval)
        = max (unat interval) (min_message_interval_ms rate_hz)
    \<and> 1000 / real (unat (cap_message_interval rate_hz interval)) \<le> 0.8 * real (unat rate_hz)"
proof -
  let ?c = "unat (cap_message_interval rate_hz interval)"
  let ?m = "min_message_interval_ms rate_hz"
  have c: "?c = max (unat interval) ?m" by (rule cap_message_interval_unat [OF assms])
  have m: "?m \<le> ?c" by (simp add: c)
  have pos: "0 < ?c" using m min_message_interval_ms_props(3) [OF assms(1)] by linarith
  have "?m * unat rate_hz \<le> ?c * unat rate_hz" using m by (rule mult_le_mono1)
  then have "1250 \<le> ?c * unat rate_hz"
    using min_message_interval_ms_props(1) [OF assms(1)] by linarith
  then have "1000 / real ?c \<le> 0.8 * real (unat rate_hz)" using pos by (rule rate_bound_real)
  moreover have "cap_message_interval rate_hz interval \<noteq> 0" using pos by (simp add: unat_gt_0)
  ultimately show ?thesis using c m by simp
qed

lemma cap_zero_or_min:
  assumes "rate_hz \<noteq> 0"
  shows "cap_message_interval rate_hz interval = 0
     \<or> min_message_interval_ms rate_hz \<le> unat (cap_message_interval rate_hz interval)"
proof (cases "interval = 0")
  case True
  then show ?thesis by (simp add: cap_message_interval_def)
next
  case False
  then show ?thesis using cap_message_interval_unat [OF assms False] by simp
qed

subsection \<open>Bucket membership is preserved\<close>





lemma bucket_of_Some:
  "bucket_of link m = Some b \<Longrightarrow>
     b < length (deferred_message_bucket link) \<and> m \<in> ap_message_ids (deferred_message_bucket link ! b)"
  unfolding bucket_of_def by (drule first_index_Some) simp



lemma get_deferred_message_index_Some:
  "get_deferred_message_index link m = Some i \<Longrightarrow>
     i < length (deferred_message link) \<and> dm_id (deferred_message link ! i) = m"
  unfolding get_deferred_message_index_def by (drule first_index_Some) simp




lemma choose_bucket_Some:
  "choose_bucket interval bs = Some (i, fresh) \<Longrightarrow>
     i < length bs \<and> (fresh \<longrightarrow> ap_message_ids (bs ! i) = {})
     \<and> (\<not> fresh \<longrightarrow> ap_message_ids (bs ! i) \<noteq> {})"
  unfolding choose_bucket_def
  by (auto split: option.splits dest: first_index_Some arg_min_index_less
      simp: first_index_None)






subsection \<open>What a scheduling call leaves alone\<close>

lemma do_try_send_message_eq:
  "do_try_send_message env m link =
     (if unat (packet_overhead env) + unat (payload_len env m) \<le> unat (txspace link)
      then (True, link\<lparr>tx_log := tx_log link @ [Scheduled_Frame m]\<rparr>)
      else (False, link\<lparr>out_of_space_to_send_count := out_of_space_to_send_count link + 1\<rparr>))"
proof -
  have "check_payload_size (packet_overhead env) link (payload_len env m) =
      (fst (check_payload_size (packet_overhead env) link (payload_len env m)),
       snd (check_payload_size (packet_overhead env) link (payload_len env m)))"
    by simp
  then show ?thesis
    unfolding do_try_send_message_def
    by (simp add: check_payload_size_fst check_payload_size_snd del: prod.collapse)
qed

lemma find_next_bucket_to_send_frame:
  "deferred_message_bucket (find_next_bucket_to_send now16_ms link) = deferred_message_bucket link"
  "deferred_message (find_next_bucket_to_send now16_ms link) = deferred_message link"
  "tx_log (find_next_bucket_to_send now16_ms link) = tx_log link"
  "out_of_space_to_send_count (find_next_bucket_to_send now16_ms link) = out_of_space_to_send_count link"
  "m_locked (find_next_bucket_to_send now16_ms link) = m_locked link"
  "m_port_txspace (find_next_bucket_to_send now16_ms link) = m_port_txspace link"
  "pushed_ap_message_ids (find_next_bucket_to_send now16_ms link) = pushed_ap_message_ids link"
  by (simp_all add: find_next_bucket_to_send_def split: option.splits)

lemma next_deferred_bucket_message_to_send_frame:
  "deferred_message_bucket (snd (next_deferred_bucket_message_to_send now16_ms link)) = deferred_message_bucket link"
  "deferred_message (snd (next_deferred_bucket_message_to_send now16_ms link)) = deferred_message link"
  "tx_log (snd (next_deferred_bucket_message_to_send now16_ms link)) = tx_log link"
  "out_of_space_to_send_count (snd (next_deferred_bucket_message_to_send now16_ms link)) = out_of_space_to_send_count link"
  "m_locked (snd (next_deferred_bucket_message_to_send now16_ms link)) = m_locked link"
  "m_port_txspace (snd (next_deferred_bucket_message_to_send now16_ms link)) = m_port_txspace link"
  "pushed_ap_message_ids (snd (next_deferred_bucket_message_to_send now16_ms link)) = pushed_ap_message_ids link"
  by (simp_all add: next_deferred_bucket_message_to_send_def Let_def find_next_bucket_to_send_frame)

lemma bucket_message_sent_frame:
  "map ap_message_ids (deferred_message_bucket (bucket_message_sent now16_ms m link))
     = map ap_message_ids (deferred_message_bucket link)"
  "map interval_ms (deferred_message_bucket (bucket_message_sent now16_ms m link))
     = map interval_ms (deferred_message_bucket link)"
  "deferred_message (bucket_message_sent now16_ms m link) = deferred_message link"
  by (simp_all add: bucket_message_sent_def Let_def map_update_same)

lemma send_next_bucket_message_frame:
  "map ap_message_ids (deferred_message_bucket (snd (send_next_bucket_message env now16_ms link)))
     = map ap_message_ids (deferred_message_bucket link)"
  "map interval_ms (deferred_message_bucket (snd (send_next_bucket_message env now16_ms link)))
     = map interval_ms (deferred_message_bucket link)"
  "deferred_message (snd (send_next_bucket_message env now16_ms link)) = deferred_message link"
  by (auto simp: send_next_bucket_message_def do_try_send_message_eq bucket_message_sent_frame
      split: prod.splits option.splits if_splits
      dest!: arg_cong [where f = snd]
      simp: next_deferred_bucket_message_to_send_frame)

lemma service_frame:
  "map ap_message_ids (deferred_message_bucket (snd (service env now16_ms link)))
     = map ap_message_ids (deferred_message_bucket link)"
  "map interval_ms (deferred_message_bucket (snd (service env now16_ms link)))
     = map interval_ms (deferred_message_bucket link)"
  "map dm_id (deferred_message (snd (service env now16_ms link))) = map dm_id (deferred_message link)"
  "map dm_interval_ms (deferred_message (snd (service env now16_ms link)))
     = map dm_interval_ms (deferred_message link)"
  by (simp_all add: service_def Let_def do_try_send_message_eq send_next_bucket_message_frame
      map_update_same split: option.splits)







subsection \<open>Intervals stay capped\<close>

lemma new_channel_capped: "intervals_capped env (new_channel special)"
  by (auto simp: intervals_capped_def new_channel_def)

lemma intervals_capped_cong:
  assumes "map (\<lambda>b. (ap_message_ids b, interval_ms b)) (deferred_message_bucket l')
         = map (\<lambda>b. (ap_message_ids b, interval_ms b)) (deferred_message_bucket l)"
    and "map dm_interval_ms (deferred_message l') = map dm_interval_ms (deferred_message l)"
    and "intervals_capped env l"
  shows "intervals_capped env l'"
proof -
  have "set (map (\<lambda>b. (ap_message_ids b, interval_ms b)) (deferred_message_bucket l'))
      = set (map (\<lambda>b. (ap_message_ids b, interval_ms b)) (deferred_message_bucket l))"
    by (rule arg_cong [OF assms(1)])
  then have a: "(\<lambda>b. (ap_message_ids b, interval_ms b)) ` set (deferred_message_bucket l')
      = (\<lambda>b. (ap_message_ids b, interval_ms b)) ` set (deferred_message_bucket l)"
    by (simp only: set_map)
  have "set (map dm_interval_ms (deferred_message l')) = set (map dm_interval_ms (deferred_message l))"
    by (rule arg_cong [OF assms(2)])
  then have b: "dm_interval_ms ` set (deferred_message l') = dm_interval_ms ` set (deferred_message l)"
    by (simp only: set_map)
  have 1: "\<forall>x \<in> set (deferred_message_bucket l'). ap_message_ids x \<noteq> {} \<longrightarrow>
          min_message_interval_ms (loop_rate_hz env) \<le> unat (interval_ms x)"
  proof
    fix x assume "x \<in> set (deferred_message_bucket l')"
    then have "(ap_message_ids x, interval_ms x)
        \<in> (\<lambda>b. (ap_message_ids b, interval_ms b)) ` set (deferred_message_bucket l)"
      using a by blast
    then obtain y where y: "y \<in> set (deferred_message_bucket l)"
      "ap_message_ids y = ap_message_ids x" "interval_ms y = interval_ms x" by auto
    have "ap_message_ids y \<noteq> {} \<longrightarrow>
          min_message_interval_ms (loop_rate_hz env) \<le> unat (interval_ms y)"
      using assms(3) y(1) by (simp add: intervals_capped_def)
    then show "ap_message_ids x \<noteq> {} \<longrightarrow>
          min_message_interval_ms (loop_rate_hz env) \<le> unat (interval_ms x)"
      by (simp add: y)
  qed
  have 2: "\<forall>m \<in> set (deferred_message l'). dm_interval_ms m = 0
          \<or> min_message_interval_ms (loop_rate_hz env) \<le> unat (dm_interval_ms m)"
  proof
    fix m assume "m \<in> set (deferred_message l')"
    then have "dm_interval_ms m \<in> dm_interval_ms ` set (deferred_message l)" using b by blast
    then obtain y where y: "y \<in> set (deferred_message l)" "dm_interval_ms y = dm_interval_ms m"
      by auto
    have "dm_interval_ms y = 0
          \<or> min_message_interval_ms (loop_rate_hz env) \<le> unat (dm_interval_ms y)"
      using assms(3) y(1) by (simp add: intervals_capped_def)
    then show "dm_interval_ms m = 0
          \<or> min_message_interval_ms (loop_rate_hz env) \<le> unat (dm_interval_ms m)"
      by (simp add: y)
  qed
  show ?thesis using 1 2 by (simp add: intervals_capped_def)
qed

lemma remove_message_from_bucket_capped:
  assumes "intervals_capped env link"
  shows "intervals_capped env (remove_message_from_bucket b m link)"
proof -
  let ?bs = "deferred_message_bucket link"
  let ?b' = "(?bs ! b)\<lparr>ap_message_ids := ap_message_ids (?bs ! b) - {m}\<rparr>"
  have "\<forall>x \<in> set (?bs[b := ?b']). ap_message_ids x \<noteq> {} \<longrightarrow>
          min_message_interval_ms (loop_rate_hz env) \<le> unat (interval_ms x)"
  proof
    fix x assume x: "x \<in> set (?bs[b := ?b'])"
    show "ap_message_ids x \<noteq> {} \<longrightarrow>
          min_message_interval_ms (loop_rate_hz env) \<le> unat (interval_ms x)"
    proof (cases "x \<in> set ?bs")
      case True
      then show ?thesis using assms by (simp add: intervals_capped_def)
    next
      case False
      then have xb: "x = ?b'" using x set_update_cases by fastforce
      have "b < length ?bs" using False x by (metis list_update_beyond not_le_imp_less)
      then have "?bs ! b \<in> set ?bs" by simp
      then show ?thesis using assms xb by (auto simp: intervals_capped_def)
    qed
  qed
  then show ?thesis using assms
    by (simp add: intervals_capped_def remove_message_from_bucket_def Let_def)
qed

lemma add_message_to_bucket_capped:
  assumes "intervals_capped env link"
    "min_message_interval_ms (loop_rate_hz env) \<le> unat interval"
  shows "intervals_capped env (snd (add_message_to_bucket now16_ms m interval link))"
proof (cases "choose_bucket interval (deferred_message_bucket link)")
  case None
  then show ?thesis using assms by (simp add: add_message_to_bucket_def)
next
  case (Some p)
  obtain i fresh where p: "p = (i, fresh)" by (cases p)
  let ?bs = "deferred_message_bucket link"
  define b where "b = (if fresh
       then \<lparr>ap_message_ids = {m}, interval_ms = interval, last_sent_ms = now16_ms\<rparr>
       else (?bs ! i)\<lparr>ap_message_ids := insert m (ap_message_ids (?bs ! i))\<rparr>)"
  have c: "i < length ?bs" "\<not> fresh \<longrightarrow> ap_message_ids (?bs ! i) \<noteq> {}"
    using choose_bucket_Some [of interval ?bs i fresh] Some p by simp_all
  have bi: "min_message_interval_ms (loop_rate_hz env) \<le> unat (interval_ms b)"
  proof (cases fresh)
    case True
    then show ?thesis using assms(2) by (simp add: b_def)
  next
    case False
    have "?bs ! i \<in> set ?bs" using c(1) by simp
    then show ?thesis using False c(2) assms(1) by (simp add: b_def intervals_capped_def)
  qed
  have "\<forall>x \<in> set (?bs[i := b]). ap_message_ids x \<noteq> {} \<longrightarrow>
          min_message_interval_ms (loop_rate_hz env) \<le> unat (interval_ms x)"
  proof
    fix x assume "x \<in> set (?bs[i := b])"
    then have "x = b \<or> x \<in> set ?bs" by (rule set_update_cases)
    then show "ap_message_ids x \<noteq> {} \<longrightarrow>
          min_message_interval_ms (loop_rate_hz env) \<le> unat (interval_ms x)"
      using bi assms(1) by (auto simp: intervals_capped_def)
  qed
  then show ?thesis using assms(1) Some p
    by (simp add: add_message_to_bucket_def Let_def b_def intervals_capped_def)
qed

lemma set_ap_message_interval_capped:
  assumes rate: "loop_rate_hz env \<noteq> 0" and cap: "intervals_capped env link"
  shows "intervals_capped env (snd (set_ap_message_interval env now16_ms m interval link))"
proof -
  define c where "c = cap_message_interval (loop_rate_hz env) interval"
  have c: "c = 0 \<or> min_message_interval_ms (loop_rate_hz env) \<le> unat c"
    unfolding c_def using rate by (rule cap_zero_or_min)
  show ?thesis
  proof (cases "get_deferred_message_index link m")
    case (Some i)
    let ?ms = "deferred_message link"
    have "\<forall>x \<in> set (?ms[i := (?ms ! i)\<lparr>dm_interval_ms := c\<rparr>]). dm_interval_ms x = 0
          \<or> min_message_interval_ms (loop_rate_hz env) \<le> unat (dm_interval_ms x)"
    proof
      fix x assume "x \<in> set (?ms[i := (?ms ! i)\<lparr>dm_interval_ms := c\<rparr>])"
      then have "x = (?ms ! i)\<lparr>dm_interval_ms := c\<rparr> \<or> x \<in> set ?ms" by (rule set_update_cases)
      then show "dm_interval_ms x = 0
          \<or> min_message_interval_ms (loop_rate_hz env) \<le> unat (dm_interval_ms x)"
        using c cap by (auto simp: intervals_capped_def)
    qed
    then show ?thesis using Some cap
      by (simp add: set_ap_message_interval_def Let_def c_def intervals_capped_def)
  next
    case None
    show ?thesis
    proof (cases "c = 0")
      case True
      then show ?thesis using None cap remove_message_from_bucket_capped [OF cap]
        by (simp add: set_ap_message_interval_def Let_def c_def split: option.splits)
    next
      case False
      then have m: "min_message_interval_ms (loop_rate_hz env) \<le> unat c" using c by simp
      show ?thesis using None False
          add_message_to_bucket_capped [OF cap m]
          add_message_to_bucket_capped [OF remove_message_from_bucket_capped [OF cap] m]
        by (simp add: set_ap_message_interval_def Let_def c_def [symmetric] split: option.splits)
    qed
  qed
qed

lemma step_capped:
  assumes "loop_rate_hz env \<noteq> 0" "intervals_capped env link"
  shows "intervals_capped env (step env c link)"
proof (cases c)
  case (Set_Interval n m i)
  then show ?thesis using assms by (simp add: set_ap_message_interval_capped)
next
  case (Set_Mavlink_Interval n m i)
  then show ?thesis using assms
    by (simp add: set_mavlink_message_id_interval_def Let_def set_ap_message_interval_capped)
next
  case (Service n)
  have "map (\<lambda>b. (ap_message_ids b, interval_ms b)) (deferred_message_bucket (snd (service env n link)))
      = map (\<lambda>b. (ap_message_ids b, interval_ms b)) (deferred_message_bucket link)"
    by (rule map_pair_eq) (rule service_frame)+
  then have "intervals_capped env (snd (service env n link))"
    using service_frame(4) assms(2) by (rule intervals_capped_cong)
  then show ?thesis using Service by simp
next
  case (Lock l)
  then show ?thesis using assms by (simp add: lock_def intervals_capped_def)
next
  case (Port_Txspace n)
  then show ?thesis using assms by (simp add: intervals_capped_def)
qed

lemma run_capped:
  "loop_rate_hz env \<noteq> 0 \<Longrightarrow> intervals_capped env link \<Longrightarrow> intervals_capped env (run env cs link)"
  by (induction cs arbitrary: link) (simp_all add: step_capped)

lemma get_ap_message_interval_capped:
  assumes "intervals_capped env link" "get_ap_message_interval link m = Some iv" "iv \<noteq> 0"
  shows "min_message_interval_ms (loop_rate_hz env) \<le> unat iv"
proof (cases "get_deferred_message_index link m")
  case (Some i)
  then have "deferred_message link ! i \<in> set (deferred_message link)"
    using get_deferred_message_index_Some [OF Some] by simp
  moreover have "iv = dm_interval_ms (deferred_message link ! i)"
    using assms(2) Some by (simp add: get_ap_message_interval_def)
  ultimately show ?thesis using assms(1,3) unfolding intervals_capped_def by blast
next
  case None
  then obtain b where b: "bucket_of link m = Some b"
    "iv = interval_ms (deferred_message_bucket link ! b)"
    using assms(2) by (auto simp: get_ap_message_interval_def split: option.splits)
  have "deferred_message_bucket link ! b \<in> set (deferred_message_bucket link)"
    "m \<in> ap_message_ids (deferred_message_bucket link ! b)"
    using bucket_of_Some [OF b(1)] by simp_all
  then show ?thesis using assms(1) b(2) unfolding intervals_capped_def by blast
qed

text \<open>
  Claim C4. With a scheduler loop rate that is not zero, \<^verbatim>\<open>cap_message_interval\<close>
  maps a non-zero interval to a non-zero interval that is the larger of the request and
  the minimum for the loop rate: a request that is too fast is raised to the minimum, not
  refused. The resulting message rate, \<open>1000 / interval\<close> Hz, is at most 0.8 times the
  loop rate. The same bound holds for every non-zero interval stored in a channel (in a
  special slot or in the bucket of a message) after any sequence of calls on a new
  channel.
\<close>

theorem message_interval_capped:
  assumes "loop_rate_hz env \<noteq> 0"
  shows "(interval \<noteq> 0 \<longrightarrow>
            cap_message_interval (loop_rate_hz env) interval \<noteq> 0
          \<and> min_message_interval_ms (loop_rate_hz env)
              \<le> unat (cap_message_interval (loop_rate_hz env) interval)
          \<and> unat (cap_message_interval (loop_rate_hz env) interval)
              = max (unat interval) (min_message_interval_ms (loop_rate_hz env))
          \<and> 1000 / real (unat (cap_message_interval (loop_rate_hz env) interval))
              \<le> 0.8 * real (unat (loop_rate_hz env)))
    \<and> (get_ap_message_interval (run env calls (new_channel special)) msg_id = Some stored
          \<and> stored \<noteq> 0 \<longrightarrow>
            min_message_interval_ms (loop_rate_hz env) \<le> unat stored
          \<and> 1000 / real (unat stored) \<le> 0.8 * real (unat (loop_rate_hz env)))"
proof (intro conjI impI)
  assume i: "interval \<noteq> 0"
  note c = cap_message_interval_rate [OF assms i]
  show "cap_message_interval (loop_rate_hz env) interval \<noteq> 0" using c by blast
  show "min_message_interval_ms (loop_rate_hz env)
      \<le> unat (cap_message_interval (loop_rate_hz env) interval)" using c by blast
  show "unat (cap_message_interval (loop_rate_hz env) interval)
      = max (unat interval) (min_message_interval_ms (loop_rate_hz env))" using c by blast
  show "1000 / real (unat (cap_message_interval (loop_rate_hz env) interval))
      \<le> 0.8 * real (unat (loop_rate_hz env))" using c by blast
next
  assume s: "get_ap_message_interval (run env calls (new_channel special)) msg_id = Some stored
      \<and> stored \<noteq> 0"
  have "intervals_capped env (run env calls (new_channel special))"
    using assms new_channel_capped by (rule run_capped)
  then show m: "min_message_interval_ms (loop_rate_hz env) \<le> unat stored"
    using s by (auto intro: get_ap_message_interval_capped)
  have pos: "0 < unat stored" using s by (simp add: unat_gt_0)
  have "min_message_interval_ms (loop_rate_hz env) * unat (loop_rate_hz env)
      \<le> unat stored * unat (loop_rate_hz env)" using m by (rule mult_le_mono1)
  then have "1250 \<le> unat stored * unat (loop_rate_hz env)"
    using min_message_interval_ms_props(1) [OF assms] by linarith
  then show "1000 / real (unat stored) \<le> 0.8 * real (unat (loop_rate_hz env))"
    using pos by (rule rate_bound_real)
qed

theorem message_interval_capped_witness:
  "loop_rate_hz example_environment \<noteq> 0 \<and> (1 :: uint16_t) \<noteq> 0
   \<and> cap_message_interval (loop_rate_hz example_environment) 1 = 4
   \<and> 1000 / real (unat (cap_message_interval (loop_rate_hz example_environment) 1))
       \<le> 0.8 * real (unat (loop_rate_hz example_environment))
   \<and> get_ap_message_interval
        (run example_environment [Set_Interval 0 7 1] (new_channel [0, 1])) 7 = Some 4
   \<and> (4 :: uint16_t) \<noteq> 0
   \<and> 1000 / real (unat (4 :: uint16_t)) \<le> 0.8 * real (unat (loop_rate_hz example_environment))"
proof -
  have r: "loop_rate_hz example_environment \<noteq> 0" by code_simp
  have c: "cap_message_interval (loop_rate_hz example_environment) 1 = 4" by code_simp
  have g: "get_ap_message_interval
        (run example_environment [Set_Interval 0 7 1] (new_channel [0, 1])) 7 = Some 4"
    by code_simp
  have n: "(1 :: uint16_t) \<noteq> 0" "(4 :: uint16_t) \<noteq> 0" by simp_all
  show ?thesis
    using message_interval_capped [OF r, of 1 "[Set_Interval 0 7 1]" "[0, 1]" 7 4] c g r n
    by metis
qed

subsection \<open>Every bucketed message is in exactly one bucket\<close>




subsection \<open>Bit masks stay finite\<close>

lemma new_channel_masks_finite: "masks_finite (new_channel special)"
  by (auto simp: masks_finite_def new_channel_def)

lemma remove_message_from_bucket_masks_finite:
  assumes "masks_finite link"
  shows "masks_finite (remove_message_from_bucket b m link)"
proof -
  let ?bs = "deferred_message_bucket link"
  let ?b' = "(?bs ! b)\<lparr>ap_message_ids := ap_message_ids (?bs ! b) - {m}\<rparr>"
  have "\<forall>x \<in> set (?bs[b := ?b']). finite (ap_message_ids x)"
  proof
    fix x assume x: "x \<in> set (?bs[b := ?b'])"
    show "finite (ap_message_ids x)"
    proof (cases "x \<in> set ?bs")
      case True
      then show ?thesis using assms by (simp add: masks_finite_def)
    next
      case False
      then have xb: "x = ?b'" using x set_update_cases by fastforce
      have "b < length ?bs" using False x by (metis list_update_beyond not_le_imp_less)
      then have "?bs ! b \<in> set ?bs" by simp
      then show ?thesis using assms xb by (simp add: masks_finite_def)
    qed
  qed
  then show ?thesis
    by (simp add: masks_finite_def remove_message_from_bucket_def Let_def)
qed

lemma add_message_to_bucket_masks_finite:
  assumes "masks_finite link"
  shows "masks_finite (snd (add_message_to_bucket now16_ms m interval link))"
proof (cases "choose_bucket interval (deferred_message_bucket link)")
  case None
  then show ?thesis using assms by (simp add: add_message_to_bucket_def)
next
  case (Some p)
  obtain i fresh where p: "p = (i, fresh)" by (cases p)
  let ?bs = "deferred_message_bucket link"
  define b where "b = (if fresh
       then \<lparr>ap_message_ids = {m}, interval_ms = interval, last_sent_ms = now16_ms\<rparr>
       else (?bs ! i)\<lparr>ap_message_ids := insert m (ap_message_ids (?bs ! i))\<rparr>)"
  have i: "i < length ?bs" using choose_bucket_Some [of interval ?bs i fresh] Some p by simp
  then have "?bs ! i \<in> set ?bs" by simp
  then have fb: "finite (ap_message_ids b)" using assms by (simp add: b_def masks_finite_def)
  have "\<forall>x \<in> set (?bs[i := b]). finite (ap_message_ids x)"
  proof
    fix x assume "x \<in> set (?bs[i := b])"
    then have "x = b \<or> x \<in> set ?bs" by (rule set_update_cases)
    then show "finite (ap_message_ids x)" using fb assms by (auto simp: masks_finite_def)
  qed
  then show ?thesis using Some p
    by (simp add: add_message_to_bucket_def Let_def b_def masks_finite_def)
qed

lemma set_ap_message_interval_masks_finite:
  assumes "masks_finite link"
  shows "masks_finite (snd (set_ap_message_interval env now16_ms m interval link))"
proof (cases "get_deferred_message_index link m")
  case (Some i)
  then show ?thesis using assms
    by (simp add: set_ap_message_interval_def Let_def masks_finite_def)
next
  case None
  then show ?thesis
    using assms add_message_to_bucket_masks_finite [OF assms]
      remove_message_from_bucket_masks_finite [OF assms]
      add_message_to_bucket_masks_finite [OF remove_message_from_bucket_masks_finite [OF assms]]
    by (simp add: set_ap_message_interval_def Let_def split: option.splits)
qed

lemma find_next_bucket_to_send_masks_finite:
  assumes "masks_finite link"
  shows "masks_finite (find_next_bucket_to_send now16_ms link)"
proof (cases "most_overdue_index (bucket_due now16_ms) (bucket_overdue_ms now16_ms)
             (deferred_message_bucket link)")
  case None
  then show ?thesis using assms by (simp add: find_next_bucket_to_send_def masks_finite_def)
next
  case (Some i)
  then have "i < length (deferred_message_bucket link)" by (simp add: most_overdue_index_Some)
  then have "deferred_message_bucket link ! i \<in> set (deferred_message_bucket link)" by simp
  then show ?thesis using assms Some
    by (simp add: find_next_bucket_to_send_def masks_finite_def)
qed

lemma masks_finite_cong:
  assumes "map ap_message_ids (deferred_message_bucket l') = map ap_message_ids (deferred_message_bucket l)"
    and "bucket_message_ids_to_send l' \<subseteq> bucket_message_ids_to_send l"
    and "masks_finite l"
  shows "masks_finite l'"
proof -
  have "set (map ap_message_ids (deferred_message_bucket l'))
      = set (map ap_message_ids (deferred_message_bucket l))"
    by (rule arg_cong [OF assms(1)])
  then have a: "ap_message_ids ` set (deferred_message_bucket l')
      = ap_message_ids ` set (deferred_message_bucket l)"
    by (simp only: set_map)
  have "\<forall>x \<in> set (deferred_message_bucket l'). finite (ap_message_ids x)"
  proof
    fix x assume "x \<in> set (deferred_message_bucket l')"
    then have "ap_message_ids x \<in> ap_message_ids ` set (deferred_message_bucket l)"
      using a by blast
    then show "finite (ap_message_ids x)" using assms(3) by (auto simp: masks_finite_def)
  qed
  moreover have "finite (bucket_message_ids_to_send l')"
    using assms(2,3) by (auto simp: masks_finite_def intro: finite_subset)
  ultimately show ?thesis by (simp add: masks_finite_def)
qed

lemma next_deferred_bucket_message_to_send_masks_finite:
  assumes "masks_finite link"
  shows "masks_finite (snd (next_deferred_bucket_message_to_send now16_ms link))"
  using assms find_next_bucket_to_send_masks_finite [OF assms]
  by (simp add: next_deferred_bucket_message_to_send_def Let_def)

lemma bucket_message_sent_masks_finite:
  assumes "masks_finite link"
  shows "masks_finite (bucket_message_sent now16_ms m link)"
proof (rule masks_finite_cong)
  show "map ap_message_ids (deferred_message_bucket (bucket_message_sent now16_ms m link))
      = map ap_message_ids (deferred_message_bucket link)"
    by (rule bucket_message_sent_frame)
  show "bucket_message_ids_to_send (bucket_message_sent now16_ms m link)
      \<subseteq> bucket_message_ids_to_send link"
    by (auto simp: bucket_message_sent_def Let_def)
  show "masks_finite link" by (rule assms)
qed

lemma do_try_send_message_masks_finite:
  assumes "masks_finite link"
  shows "masks_finite (snd (do_try_send_message env m link))"
  using assms by (simp add: do_try_send_message_eq masks_finite_def)

lemma send_next_bucket_message_masks_finite:
  assumes "masks_finite link"
  shows "masks_finite (snd (send_next_bucket_message env now16_ms link))"
proof -
  obtain c l where n: "next_deferred_bucket_message_to_send now16_ms link = (c, l)"
    by (cases "next_deferred_bucket_message_to_send now16_ms link")
  have l: "masks_finite l"
    using next_deferred_bucket_message_to_send_masks_finite [OF assms, of now16_ms] n by simp
  show ?thesis
  proof (cases c)
    case None
    then show ?thesis using n l by (simp add: send_next_bucket_message_def)
  next
    case (Some m)
    obtain ok l2 where d: "do_try_send_message env m l = (ok, l2)"
      by (cases "do_try_send_message env m l")
    have l2: "masks_finite l2" using do_try_send_message_masks_finite [OF l, of env m] d by simp
    show ?thesis using n Some d l2 bucket_message_sent_masks_finite [OF l2]
      by (cases ok) (simp_all add: send_next_bucket_message_def)
  qed
qed

lemma service_masks_finite:
  assumes "masks_finite link"
  shows "masks_finite (snd (service env now16_ms link))"
proof (cases "locked link")
  case True
  then show ?thesis using assms by (simp add: service_def)
next
  case False
  show ?thesis
  proof (cases "deferred_message_to_send_index now16_ms link")
    case None
    then show ?thesis using False send_next_bucket_message_masks_finite [OF assms]
      by (simp add: service_def)
  next
    case (Some i)
    then show ?thesis using False assms
      by (simp add: service_def Let_def do_try_send_message_eq masks_finite_def)
  qed
qed

lemma step_masks_finite: "masks_finite link \<Longrightarrow> masks_finite (step env c link)"
proof (cases c)
  case (Set_Interval n m i)
  assume "masks_finite link"
  then show ?thesis using Set_Interval by (simp add: set_ap_message_interval_masks_finite)
next
  case (Set_Mavlink_Interval n m i)
  assume "masks_finite link"
  then show ?thesis using Set_Mavlink_Interval
    by (simp add: set_mavlink_message_id_interval_def Let_def set_ap_message_interval_masks_finite)
next
  case (Service n)
  assume "masks_finite link"
  then show ?thesis using Service by (simp add: service_masks_finite)
next
  case (Lock l)
  assume "masks_finite link"
  then show ?thesis using Lock by (simp add: lock_def masks_finite_def)
next
  case (Port_Txspace n)
  assume "masks_finite link"
  then show ?thesis using Port_Txspace by (simp add: masks_finite_def)
qed

lemma run_masks_finite: "masks_finite link \<Longrightarrow> masks_finite (run env cs link)"
  by (induction cs arbitrary: link) (simp_all add: step_masks_finite)

lemma reachable_masks_finite: "masks_finite (run env cs (new_channel special))"
  by (rule run_masks_finite) (rule new_channel_masks_finite)

subsection \<open>A candidate that fails admission\<close>





subsection \<open>One scheduling call\<close>

lemma service_locked: "locked link \<Longrightarrow> service env now16_ms link = (NothingDue, link)"
  by (simp add: service_def)

lemma service_no_special_due:
  "\<not> locked link \<Longrightarrow> deferred_message_to_send_index now16_ms link = None \<Longrightarrow>
     service env now16_ms link = send_next_bucket_message env now16_ms link"
  by (simp add: service_def)

lemma bucket_message_sent_tx_log: "tx_log (bucket_message_sent now16_ms m link) = tx_log link"
  by (simp add: bucket_message_sent_def Let_def)

lemma next_deferred_bucket_message_to_send_txspace:
  "txspace (snd (next_deferred_bucket_message_to_send now16_ms link)) = txspace link"
  by (simp add: txspace_def next_deferred_bucket_message_to_send_frame)

lemma send_next_bucket_message_tx_log:
  "tx_log (snd (send_next_bucket_message env now16_ms link)) =
     (case fst (send_next_bucket_message env now16_ms link) of
        Sent m \<Rightarrow> tx_log link @ [Scheduled_Frame m]
      | NothingDue \<Rightarrow> tx_log link
      | DeferredNoSpace \<Rightarrow> tx_log link)"
proof -
  obtain c l where n: "next_deferred_bucket_message_to_send now16_ms link = (c, l)"
    by (cases "next_deferred_bucket_message_to_send now16_ms link")
  have l: "tx_log l = tx_log link"
    using next_deferred_bucket_message_to_send_frame(3) [of now16_ms link] n by simp
  show ?thesis
    by (cases c) (simp_all add: send_next_bucket_message_def n l do_try_send_message_eq
        bucket_message_sent_tx_log)
qed

lemma send_next_bucket_message_fits:
  assumes "fst (send_next_bucket_message env now16_ms link) = Sent m"
  shows "unat (packet_overhead env) + unat (payload_len env m) \<le> unat (txspace link)"
proof -
  obtain c l where n: "next_deferred_bucket_message_to_send now16_ms link = (c, l)"
    by (cases "next_deferred_bucket_message_to_send now16_ms link")
  have l: "txspace l = txspace link"
    using next_deferred_bucket_message_to_send_txspace [of now16_ms link] n by simp
  show ?thesis using assms
    by (cases c) (auto simp: send_next_bucket_message_def n l do_try_send_message_eq
        split: if_splits)
qed

lemma service_sends_only_what_fits:
  assumes "service env now16_ms link = (Sent m, link')"
  shows "unat (packet_overhead env) + unat (payload_len env m) \<le> unat (txspace link)
     \<and> tx_log link' = tx_log link @ [Scheduled_Frame m]"
proof (cases "deferred_message_to_send_index now16_ms link")
  case None
  then have s: "send_next_bucket_message env now16_ms link = (Sent m, link')"
    using assms by (simp add: service_def split: if_splits)
  then have "fst (send_next_bucket_message env now16_ms link) = Sent m" by simp
  then show ?thesis
    using send_next_bucket_message_fits [of env now16_ms link m]
      send_next_bucket_message_tx_log [of env now16_ms link] s by simp
next
  case (Some i)
  then show ?thesis using assms
    by (auto simp: service_def Let_def do_try_send_message_eq split: if_splits)
qed

lemma service_writes_at_most_one:
  "tx_log (snd (service env now16_ms link)) = tx_log link
   \<or> (\<exists>m. tx_log (snd (service env now16_ms link)) = tx_log link @ [Scheduled_Frame m])"
proof (cases "fst (service env now16_ms link)")
  case (Sent m)
  then have "service env now16_ms link = (Sent m, snd (service env now16_ms link))"
    by (metis prod.collapse)
  then show ?thesis using service_sends_only_what_fits by blast
next
  case NothingDue
  then show ?thesis
    using send_next_bucket_message_tx_log [of env now16_ms link]
    by (auto simp: service_def Let_def do_try_send_message_eq split: if_splits option.splits)
next
  case DeferredNoSpace
  then show ?thesis
    using send_next_bucket_message_tx_log [of env now16_ms link]
    by (auto simp: service_def Let_def do_try_send_message_eq split: if_splits option.splits)
qed

end
